theory Spec2Isabelle
  imports Main "HOL-Library.Char_ord" "HOL-Library.List_Lexorder" "HOL-Library.Multiset"
begin

section \<open>Python values\<close>

text \<open>
  The attributes of an \<open>Event\<close> are untyped in the source: the console loop supplies
  \<open>int\<close> and \<open>str\<close> values, \<open>json.load\<close> supplies whatever the file holds. \<open>pyval\<close> is
  the universe of values \<open>json.load\<close> can return, floats left out (numbers with a
  fraction or an exponent are outside this development). A \<open>dict\<close> is an association
  list whose keys are distinct; a lookup takes the first binding. A \<open>str\<close> is a
  \<open>string\<close>; its order is the lexicographic order of \<open>HOL-Library.List_Lexorder\<close> over
  the character codes of \<open>HOL-Library.Char_ord\<close>, which is Python's order on \<open>str\<close>.
\<close>

datatype pyval =
    PNone
  | PBool bool
  | PInt int
  | PStr string
  | PList "pyval list"
  | PDict "(string \<times> pyval) list"

text \<open>The exceptions the modelled code can raise; \<open>KeyError\<close> carries the missing key.\<close>

datatype error =
    KeyError string
  | TypeError
  | AttributeError
  | ValueError
  | JSONDecodeError

text \<open>Truth value testing (\<open>if title:\<close>): \<open>None\<close>, \<open>False\<close>, zero and empty containers are false.\<close>

fun py_truthy :: "pyval \<Rightarrow> bool" where
  "py_truthy PNone = False"
| "py_truthy (PBool b) = b"
| "py_truthy (PInt n) = (n \<noteq> 0)"
| "py_truthy (PStr s) = (s \<noteq> [])"
| "py_truthy (PList xs) = (xs \<noteq> [])"
| "py_truthy (PDict kvs) = (kvs \<noteq> [])"

text \<open>\<open>bool\<close> is a subclass of \<open>int\<close>: \<open>True\<close> counts as 1 and \<open>False\<close> as 0 in arithmetic
  and comparisons.\<close>

fun num_of :: "pyval \<Rightarrow> int option" where
  "num_of (PBool b) = Some (if b then 1 else 0)"
| "num_of (PInt n) = Some n"
| "num_of _ = None"

text \<open>\<open>a == b\<close>. It never raises on these values. Lists are equal elementwise; dicts are
  equal when they have the same number of keys and every key of the left one is bound to
  an equal value in the right one.\<close>

fun py_eq :: "pyval \<Rightarrow> pyval \<Rightarrow> bool" where
  "py_eq PNone PNone = True"
| "py_eq (PStr s) (PStr t) = (s = t)"
| "py_eq (PList xs) (PList ys) = list_all2 py_eq xs ys"
| "py_eq (PDict kvs) (PDict kws) =
     (length kvs = length kws \<and>
      list_all (\<lambda>(k, v). case map_of kws k of None \<Rightarrow> False | Some w \<Rightarrow> py_eq v w) kvs)"
| "py_eq a b =
     (case (num_of a, num_of b) of (Some m, Some n) \<Rightarrow> m = n | _ \<Rightarrow> False)"

text \<open>\<open>a < b\<close>. Numbers compare with numbers, strings with strings, and lists with lists
  (at the first position where the elements are not equal, else by length); every other
  pair raises \<open>TypeError\<close>, \<open>None < None\<close> and \<open>dict < dict\<close> included.\<close>

fun py_lt :: "pyval \<Rightarrow> pyval \<Rightarrow> error + bool"
  and py_lt_list :: "pyval list \<Rightarrow> pyval list \<Rightarrow> error + bool" where
  "py_lt (PStr s) (PStr t) = Inr (s < t)"
| "py_lt (PList xs) (PList ys) = py_lt_list xs ys"
| "py_lt a b =
     (case (num_of a, num_of b) of (Some m, Some n) \<Rightarrow> Inr (m < n) | _ \<Rightarrow> Inl TypeError)"
| "py_lt_list [] [] = Inr False"
| "py_lt_list [] (y # ys) = Inr True"
| "py_lt_list (x # xs) [] = Inr False"
| "py_lt_list (x # xs) (y # ys) = (if py_eq x y then py_lt_list xs ys else py_lt x y)"

text \<open>\<open>a > b\<close> is \<open>b < a\<close> on these values, errors included.\<close>

definition py_gt :: "pyval \<Rightarrow> pyval \<Rightarrow> error + bool" where
  "py_gt a b = py_lt b a"

text \<open>\<open>a + b\<close>: numbers add (the sum of two \<open>bool\<close>s is an \<open>int\<close>), strings and lists
  concatenate, every other pair raises \<open>TypeError\<close>.\<close>

fun py_add :: "pyval \<Rightarrow> pyval \<Rightarrow> error + pyval" where
  "py_add (PStr s) (PStr t) = Inr (PStr (s @ t))"
| "py_add (PList xs) (PList ys) = Inr (PList (xs @ ys))"
| "py_add a b =
     (case (num_of a, num_of b) of (Some m, Some n) \<Rightarrow> Inr (PInt (m + n)) | _ \<Rightarrow> Inl TypeError)"

text \<open>The builtin \<open>max\<close> over an iterable: the first item is the candidate, and a later
  item replaces it when \<open>item > candidate\<close>. The empty iterable raises \<open>ValueError\<close>.\<close>

fun py_max_loop :: "pyval \<Rightarrow> pyval list \<Rightarrow> error + pyval" where
  "py_max_loop m [] = Inr m"
| "py_max_loop m (x # xs) =
     (case py_gt x m of
        Inl e \<Rightarrow> Inl e
      | Inr t \<Rightarrow> py_max_loop (if t then x else m) xs)"

fun py_max :: "pyval list \<Rightarrow> error + pyval" where
  "py_max [] = Inl ValueError"
| "py_max (x # xs) = py_max_loop x xs"

text \<open>\<open>data[key]\<close> with a string key: only a dict can be subscripted by a string, and a
  missing key raises \<open>KeyError\<close>.\<close>

fun py_getitem :: "pyval \<Rightarrow> string \<Rightarrow> error + pyval" where
  "py_getitem (PDict kvs) k = (case map_of kvs k of None \<Rightarrow> Inl (KeyError k) | Some v \<Rightarrow> Inr v)"
| "py_getitem _ k = Inl TypeError"

text \<open>\<open>data.get(key, default)\<close>: only a dict has the method.\<close>

fun py_get :: "pyval \<Rightarrow> string \<Rightarrow> pyval \<Rightarrow> error + pyval" where
  "py_get (PDict kvs) k dflt = (case map_of kvs k of None \<Rightarrow> Inr dflt | Some v \<Rightarrow> Inr v)"
| "py_get _ k dflt = Inl AttributeError"

text \<open>\<open>for x in data\<close>: a list yields its elements, a dict its keys, a string its
  characters as one-character strings; \<open>None\<close>, \<open>bool\<close> and \<open>int\<close> are not iterable.\<close>

fun py_iter :: "pyval \<Rightarrow> error + pyval list" where
  "py_iter (PList xs) = Inr xs"
| "py_iter (PDict kvs) = Inr (map (\<lambda>kv. PStr (fst kv)) kvs)"
| "py_iter (PStr s) = Inr (map (\<lambda>c. PStr [c]) s)"
| "py_iter _ = Inl TypeError"

text \<open>A list comprehension \<open>[f(x) for x in xs]\<close> whose body can raise: the first exception
  ends it.\<close>

fun comprehension :: "('a \<Rightarrow> error + 'b) \<Rightarrow> 'a list \<Rightarrow> error + 'b list" where
  "comprehension f [] = Inr []"
| "comprehension f (x # xs) =
     (case f x of
        Inl e \<Rightarrow> Inl e
      | Inr y \<Rightarrow> (case comprehension f xs of Inl e \<Rightarrow> Inl e | Inr ys \<Rightarrow> Inr (y # ys)))"

section \<open>Event\<close>

text \<open>The class \<open>Event\<close>. The attribute \<open>id\<close> is the field \<open>event_id\<close> (the name of the
  constructor's parameter), since \<open>id\<close> is the identity function of HOL.\<close>

record event =
  event_id :: pyval
  title :: pyval
  importance :: pyval
  date :: pyval
  completed :: pyval

definition to_dict :: "event \<Rightarrow> pyval" where
  "to_dict e =
     PDict [(''id'', event_id e), (''title'', title e), (''importance'', importance e),
            (''date'', date e), (''completed'', completed e)]"

text \<open>\<open>Event.from_dict\<close>: the five arguments of the constructor are evaluated from left
  to right, so the first failing lookup decides the exception.\<close>

definition from_dict :: "pyval \<Rightarrow> error + event" where
  "from_dict data =
     (case py_getitem data ''id'' of
        Inl e \<Rightarrow> Inl e
      | Inr i \<Rightarrow>
     (case py_getitem data ''title'' of
        Inl e \<Rightarrow> Inl e
      | Inr t \<Rightarrow>
     (case py_getitem data ''importance'' of
        Inl e \<Rightarrow> Inl e
      | Inr m \<Rightarrow>
     (case py_getitem data ''date'' of
        Inl e \<Rightarrow> Inl e
      | Inr d \<Rightarrow>
     (case py_get data ''completed'' (PBool False) of
        Inl e \<Rightarrow> Inl e
      | Inr c \<Rightarrow>
          Inr \<lparr>event_id = i, title = t, importance = m, date = d, completed = c\<rparr>)))))"

section \<open>Diary\<close>

text \<open>
  The file \<open>events.json\<close> as \<open>load_events\<close> sees it: absent, present with a text that
  \<open>json.load\<close> rejects, or present with a text that \<open>json.load\<close> turns into a value.
  \<open>json.dump\<close> followed by \<open>json.load\<close> gives back the value that was written, for the
  values of \<open>pyval\<close>. Failures of the operating system (permissions, a full disk) are
  outside this development.
\<close>

datatype file_content = Absent | Unparsable | Doc pyval

text \<open>The state: the list \<open>self.events\<close> of the one \<open>Diary\<close> object, and the file.\<close>

record diary =
  events :: "event list"
  json_file :: file_content

text \<open>What a method tells its caller: the line it prints, and the value the call evaluates
  to. Every method of \<open>Diary\<close> ends without a \<open>return\<close> statement, so that value is
  \<open>None\<close>.\<close>

datatype message =
    EventAdded
  | EventUpdated
  | EventDeleted
  | EventCompleted
  | EventsSorted
  | EventNotFound

record reply =
  printed :: message
  returned :: pyval

definition says :: "message \<Rightarrow> reply" where
  "says m = \<lparr>printed = m, returned = PNone\<rparr>"

definition load_events :: "diary \<Rightarrow> error + diary" where
  "load_events d =
     (case json_file d of
        Absent \<Rightarrow> Inr (d\<lparr>events := []\<rparr>)
      | Unparsable \<Rightarrow> Inl JSONDecodeError
      | Doc data \<Rightarrow>
          (case py_iter data of
             Inl e \<Rightarrow> Inl e
           | Inr items \<Rightarrow>
               (case comprehension from_dict items of
                  Inl e \<Rightarrow> Inl e
                | Inr evs \<Rightarrow> Inr (d\<lparr>events := evs\<rparr>))))"

definition save_events :: "diary \<Rightarrow> diary" where
  "save_events d = d\<lparr>json_file := Doc (PList (map to_dict (events d)))\<rparr>"

text \<open>\<open>_generate_id\<close>.\<close>

definition generate_id :: "event list \<Rightarrow> error + pyval" where
  "generate_id evs =
     (if evs = [] then Inr (PInt 1)
      else (case py_max (map event_id evs) of
              Inl e \<Rightarrow> Inl e
            | Inr m \<Rightarrow> py_add m (PInt 1)))"

text \<open>\<open>get_event_by_id\<close> returns a reference to an element of \<open>self.events\<close>, or \<open>None\<close>.
  The reference is modelled by the position of that element: the first one whose \<open>id\<close>
  equals the argument.\<close>

fun get_event_by_id :: "event list \<Rightarrow> pyval \<Rightarrow> nat option" where
  "get_event_by_id [] eid = None"
| "get_event_by_id (e # es) eid =
     (if py_eq (event_id e) eid then Some 0 else map_option Suc (get_event_by_id es eid))"

definition add_event :: "diary \<Rightarrow> pyval \<Rightarrow> pyval \<Rightarrow> pyval \<Rightarrow> error + reply \<times> diary" where
  "add_event d t m dt =
     (case generate_id (events d) of
        Inl e \<Rightarrow> Inl e
      | Inr n \<Rightarrow>
          Inr (says EventAdded,
               save_events (d\<lparr>events := events d @
                 [\<lparr>event_id = n, title = t, importance = m, date = dt,
                   completed = PBool False\<rparr>]\<rparr>)))"

text \<open>\<open>edit_event\<close>. An \<open>Event\<close> object is always true in \<open>if event:\<close>, so the test separates
  an object from \<open>None\<close>. The three assignments change the object in place, that is, the
  element of the list at the position found.\<close>

definition edit_fields :: "pyval \<Rightarrow> pyval \<Rightarrow> pyval \<Rightarrow> event \<Rightarrow> event" where
  "edit_fields t m dt e =
     (let e1 = (if py_truthy t then e\<lparr>title := t\<rparr> else e);
          e2 = (if py_truthy m then e1\<lparr>importance := m\<rparr> else e1)
      in (if py_truthy dt then e2\<lparr>date := dt\<rparr> else e2))"

definition edit_event :: "diary \<Rightarrow> pyval \<Rightarrow> pyval \<Rightarrow> pyval \<Rightarrow> pyval \<Rightarrow> reply \<times> diary" where
  "edit_event d eid t m dt =
     (case get_event_by_id (events d) eid of
        Some i \<Rightarrow>
          (says EventUpdated,
           save_events (d\<lparr>events := (events d)[i := edit_fields t m dt (events d ! i)]\<rparr>))
      | None \<Rightarrow> (says EventNotFound, d))"

text \<open>\<open>delete_event\<close>. \<open>Event\<close> defines no \<open>__eq__\<close>, so \<open>self.events.remove(event)\<close> removes
  the object itself: the element at the position found.\<close>

definition delete_event :: "diary \<Rightarrow> pyval \<Rightarrow> reply \<times> diary" where
  "delete_event d eid =
     (case get_event_by_id (events d) eid of
        Some i \<Rightarrow>
          (says EventDeleted,
           save_events (d\<lparr>events := take i (events d) @ drop (Suc i) (events d)\<rparr>))
      | None \<Rightarrow> (says EventNotFound, d))"

definition mark_completed :: "diary \<Rightarrow> pyval \<Rightarrow> reply \<times> diary" where
  "mark_completed d eid =
     (case get_event_by_id (events d) eid of
        Some i \<Rightarrow>
          (says EventCompleted,
           save_events (d\<lparr>events := (events d)[i := (events d ! i)\<lparr>completed := PBool True\<rparr>]\<rparr>))
      | None \<Rightarrow> (says EventNotFound, d))"

text \<open>
  \<open>sort_events_by_date\<close>. \<open>list.sort\<close> is stable and compares the keys with \<open><\<close> only.
  Its result is modelled by the stable insertion sort over \<open>py_lt\<close>, and it raises
  \<open>TypeError\<close> when two of the keys at different positions do not compare. (A list of at
  most one event is never compared, whatever its key. For keys that are numbers or
  strings the order is total and every stable sort gives this result; CPython's own
  sequence of comparisons is not modelled.)
\<close>

fun insort_by :: "('a \<Rightarrow> pyval) \<Rightarrow> 'a \<Rightarrow> 'a list \<Rightarrow> 'a list" where
  "insort_by key x [] = [x]"
| "insort_by key x (y # ys) =
     (if py_lt (key y) (key x) = Inr True then y # insort_by key x ys else x # y # ys)"

definition sort_by :: "('a \<Rightarrow> pyval) \<Rightarrow> 'a list \<Rightarrow> 'a list" where
  "sort_by key xs = foldr (insort_by key) xs []"

fun comparable :: "pyval list \<Rightarrow> bool" where
  "comparable [] = True"
| "comparable (k # ks) =
     (list_all (\<lambda>k'. \<not> isl (py_lt k k') \<and> \<not> isl (py_lt k' k)) ks \<and> comparable ks)"

definition sort_events_by_date :: "diary \<Rightarrow> error + reply \<times> diary" where
  "sort_events_by_date d =
     (if comparable (map date (events d))
      then Inr (says EventsSorted, save_events (d\<lparr>events := sort_by date (events d)\<rparr>))
      else Inl TypeError)"

section \<open>Notions used to state the properties\<close>

text \<open>The keys that \<open>from_dict\<close> subscripts; \<open>completed\<close> is read with \<open>get\<close> and a default.\<close>

definition required_keys :: "string list" where
  "required_keys = [''id'', ''title'', ''importance'', ''date'']"

text \<open>A file holds valid structured data when it is a JSON array of objects that each have
  the four required keys.\<close>

fun well_formed_record :: "pyval \<Rightarrow> bool" where
  "well_formed_record (PDict kvs) = list_all (\<lambda>k. map_of kvs k \<noteq> None) required_keys"
| "well_formed_record _ = False"

fun well_formed_file :: "file_content \<Rightarrow> bool" where
  "well_formed_file (Doc (PList recs)) = list_all well_formed_record recs"
| "well_formed_file _ = False"

text \<open>The spec's words for the next id: the maximum of the existing ids plus one, or one
  for the empty store. \<open>generate_id\<close> is compared with it.\<close>

definition spec_next_id :: "int list \<Rightarrow> int" where
  "spec_next_id ns = (if ns = [] then 1 else Max (set ns) + 1)"

text \<open>The characters of a \<open>str\<close>.\<close>

fun str_of :: "pyval \<Rightarrow> string" where
  "str_of (PStr s) = s"
| "str_of _ = []"

text \<open>The invariant of the data model: every id is an \<open>int\<close>, and no two events share
  one.\<close>

fun is_int :: "pyval \<Rightarrow> bool" where
  "is_int (PInt n) = True"
| "is_int _ = False"

definition unique_int_ids :: "event list \<Rightarrow> bool" where
  "unique_int_ids evs =
     (list_all (\<lambda>e. is_int (event_id e)) evs \<and> distinct (map event_id evs))"

text \<open>The constructor \<open>Event(event_id, title, importance, date, completed)\<close> on the values
  the console loop passes, and two stores used as concrete inputs: one with the ids 1, 3
  and 5, one with the dates of the sorting example.\<close>

definition Event :: "int \<Rightarrow> string \<Rightarrow> string \<Rightarrow> string \<Rightarrow> bool \<Rightarrow> event" where
  "Event i t m dt c =
     \<lparr>event_id = PInt i, title = PStr t, importance = PStr m, date = PStr dt,
      completed = PBool c\<rparr>"

definition store_135 :: diary where
  "store_135 =
     \<lparr>events = [Event 1 ''Meeting'' ''High'' ''2024-06-01'' False,
                Event 3 ''Dentist'' ''Medium'' ''2024-06-03'' True,
                Event 5 ''Report'' ''Low'' ''2024-06-02'' False],
      json_file = Absent\<rparr>"

definition dated_store :: diary where
  "dated_store =
     \<lparr>events = [Event 1 ''Meeting'' ''High'' ''2024-05-01'' False,
                Event 2 ''Dentist'' ''Medium'' ''2023-01-10'' False,
                Event 3 ''Report'' ''Low'' ''2024-05-01'' False],
      json_file = Absent\<rparr>"

section \<open>Serialisation\<close>

lemma from_dict_to_dict: "from_dict (to_dict e) = Inr e"
  by (simp add: from_dict_def to_dict_def)

lemma comprehension_from_dict_to_dict:
  "comprehension from_dict (map to_dict evs) = Inr evs"
  by (induction evs) (simp_all add: from_dict_to_dict)

text \<open>
  Claim C2. Saving the collection and loading it again gives the same list of events:
  the same number of events, each with the same id, title, importance, date and completed
  value, in the same order. The list in memory before the load (\<open>old\<close>) plays no role, so
  this also covers a fresh \<open>Diary\<close> object reading the file that another one saved.
\<close>

theorem save_then_load:
  "load_events ((save_events d)\<lparr>events := old\<rparr>) = Inr (save_events d)
   \<and> events (save_events d) = events d"
  by (simp add: load_events_def save_events_def comprehension_from_dict_to_dict)

text \<open>
  Claim C7, as stated, fails on the code: \<open>from_dict\<close> does not look at the type of a value.
  A mapping whose \<open>id\<close> is a string, whose \<open>title\<close> is a number, whose \<open>importance\<close> is
  \<open>None\<close> and whose \<open>date\<close> is a list is turned into an \<open>Event\<close> holding these values.
\<close>

theorem from_dict_wrong_types:
  "from_dict (PDict [(''id'', PStr ''seven''), (''title'', PInt 3), (''importance'', PNone),
                     (''date'', PList [])]) =
     Inr \<lparr>event_id = PStr ''seven'', title = PInt 3, importance = PNone, date = PList [],
          completed = PBool False\<rparr>"
  by (simp add: from_dict_def)

text \<open>
  Claim C7, amended. For every mapping: when the four keys \<open>id\<close>, \<open>title\<close>, \<open>importance\<close>
  and \<open>date\<close> are present, \<open>from_dict\<close> returns the \<open>Event\<close> holding their values as they
  are, whatever their types, and its completed flag is the value of \<open>completed\<close>, or
  \<open>False\<close> when that key is absent; when one of the four keys is missing, \<open>from_dict\<close>
  fails with a \<open>KeyError\<close> for a missing key (the malformed-record failure).
\<close>

theorem from_dict_mapping:
  "(\<forall>i t m dt.
      map_of kvs ''id'' = Some i \<and> map_of kvs ''title'' = Some t \<and>
      map_of kvs ''importance'' = Some m \<and> map_of kvs ''date'' = Some dt \<longrightarrow>
      from_dict (PDict kvs) =
        Inr \<lparr>event_id = i, title = t, importance = m, date = dt,
             completed = (case map_of kvs ''completed'' of None \<Rightarrow> PBool False | Some c \<Rightarrow> c)\<rparr>)
   \<and> ((\<exists>k \<in> set required_keys. map_of kvs k = None) \<longrightarrow>
      (\<exists>k \<in> set required_keys. map_of kvs k = None \<and> from_dict (PDict kvs) = Inl (KeyError k)))"
  by (auto simp: from_dict_def required_keys_def split: option.splits)

theorem from_dict_mapping_witness:
  "from_dict (PDict [(''id'', PInt 4), (''title'', PStr ''Tea''), (''importance'', PStr ''Low''),
                     (''date'', PStr ''2024-06-01'')]) =
     Inr \<lparr>event_id = PInt 4, title = PStr ''Tea'', importance = PStr ''Low'',
          date = PStr ''2024-06-01'', completed = PBool False\<rparr>
   \<and> (\<exists>k \<in> set required_keys.
         map_of [(''id'', PInt 4), (''title'', PStr ''Tea'')] k = None \<and>
         from_dict (PDict [(''id'', PInt 4), (''title'', PStr ''Tea'')]) = Inl (KeyError k))"
  using from_dict_mapping [of "[(''id'', PInt 4), (''title'', PStr ''Tea''),
                                (''importance'', PStr ''Low''), (''date'', PStr ''2024-06-01'')]"]
    from_dict_mapping [of "[(''id'', PInt 4), (''title'', PStr ''Tea'')]"]
  by (simp add: required_keys_def)

section \<open>Loading\<close>

lemma from_dict_well_formed: "well_formed_record v \<Longrightarrow> \<exists>e. from_dict v = Inr e"
  by (cases v) (auto simp: from_dict_def required_keys_def split: option.splits)

lemma comprehension_well_formed:
  "list_all well_formed_record recs \<Longrightarrow> \<exists>evs. comprehension from_dict recs = Inr evs"
proof (induction recs)
  case Nil
  then show ?case by simp
next
  case (Cons r recs)
  then obtain e evs where "from_dict r = Inr e" "comprehension from_dict recs = Inr evs"
    using from_dict_well_formed by fastforce
  then show ?case by simp
qed

lemma load_well_formed:
  "well_formed_file (json_file d) \<Longrightarrow> \<exists>d'. load_events d = Inr d'"
proof (cases "json_file d")
  case (Doc v)
  assume wf: "well_formed_file (json_file d)"
  with Doc obtain recs where v: "v = PList recs" and "list_all well_formed_record recs"
    by (cases v) auto
  then obtain evs where "comprehension from_dict recs = Inr evs"
    using comprehension_well_formed by blast
  with Doc v show ?thesis by (simp add: load_events_def)
qed auto

lemma from_dict_error:
  "from_dict v = Inl e \<Longrightarrow> e = TypeError \<or> (\<exists>k \<in> set required_keys. e = KeyError k)"
proof (cases v)
  case (PDict kvs)
  assume "from_dict v = Inl e"
  with PDict show ?thesis
    by (auto simp: from_dict_def required_keys_def split: option.splits)
qed (auto simp: from_dict_def)

lemma comprehension_error:
  "comprehension f xs = Inl e \<Longrightarrow> \<exists>x \<in> set xs. f x = Inl e"
  by (induction xs) (auto split: sum.splits)

lemma py_iter_error: "py_iter v = Inl e \<Longrightarrow> e = TypeError"
  by (cases v) auto

lemma load_decode_error: "(load_events d = Inl JSONDecodeError) = (json_file d = Unparsable)"
proof
  assume "load_events d = Inl JSONDecodeError"
  then show "json_file d = Unparsable"
    by (auto simp: load_events_def split: file_content.splits sum.splits
             dest!: py_iter_error comprehension_error from_dict_error)
next
  assume "json_file d = Unparsable"
  then show "load_events d = Inl JSONDecodeError" by (simp add: load_events_def)
qed

text \<open>
  Claim C9. When the file does not exist, \<open>load_events\<close> sets the collection to the empty
  list and raises nothing. It fails only when the file exists and does not hold valid
  structured data; the storage failure of the source is the exception of \<open>json.load\<close>,
  raised exactly when the file exists and its text is not JSON.
\<close>

theorem load_events_failure:
  "(json_file d = Absent \<longrightarrow> load_events d = Inr (d\<lparr>events := []\<rparr>))
   \<and> (\<forall>e. load_events d = Inl e \<longrightarrow> json_file d \<noteq> Absent \<and> \<not> well_formed_file (json_file d))
   \<and> (load_events d = Inl JSONDecodeError \<longleftrightarrow> json_file d = Unparsable)"
proof (intro conjI allI impI)
  assume "json_file d = Absent"
  then show "load_events d = Inr (d\<lparr>events := []\<rparr>)" by (simp add: load_events_def)
next
  fix e assume "load_events d = Inl e"
  then show "json_file d \<noteq> Absent" by (auto simp: load_events_def)
next
  fix e assume "load_events d = Inl e"
  then show "\<not> well_formed_file (json_file d)" using load_well_formed [of d] by auto
next
  show "(load_events d = Inl JSONDecodeError) = (json_file d = Unparsable)"
    by (rule load_decode_error)
qed

theorem load_events_failure_witness:
  "load_events \<lparr>events = [], json_file = Absent\<rparr> = Inr \<lparr>events = [], json_file = Absent\<rparr>
   \<and> load_events \<lparr>events = [], json_file = Doc (PList [PDict [(''id'', PInt 1)]])\<rparr>
       = Inl (KeyError ''title'')
   \<and> \<not> well_formed_file (Doc (PList [PDict [(''id'', PInt 1)]]))
   \<and> load_events \<lparr>events = [], json_file = Unparsable\<rparr> = Inl JSONDecodeError"
  using load_events_failure [of "\<lparr>events = [], json_file = Absent\<rparr>"]
    load_events_failure [of "\<lparr>events = [], json_file = Doc (PList [PDict [(''id'', PInt 1)]])\<rparr>"]
    load_events_failure [of "\<lparr>events = [], json_file = Unparsable\<rparr>"]
  by (simp add: load_events_def from_dict_def)

section \<open>Lookup by id\<close>

lemma get_event_by_id_none:
  "(get_event_by_id evs eid = None) = (\<forall>e \<in> set evs. \<not> py_eq (event_id e) eid)"
  by (induction evs) auto

lemma get_event_by_id_first:
  "py_eq (event_id e) eid \<Longrightarrow> \<forall>x \<in> set pre. \<not> py_eq (event_id x) eid \<Longrightarrow>
   get_event_by_id (pre @ e # post) eid = Some (length pre)"
  by (induction pre) auto

text \<open>A store that contains an event with the given id splits at the first such event, so
  the hypotheses of the theorems below cover every such store.\<close>

lemma first_match_exists:
  "\<exists>e \<in> set evs. py_eq (event_id e) eid \<Longrightarrow>
   \<exists>pre e post. evs = pre @ e # post \<and> py_eq (event_id e) eid \<and>
     (\<forall>x \<in> set pre. \<not> py_eq (event_id x) eid)"
  using split_list_first_prop [of evs "\<lambda>e. py_eq (event_id e) eid"] by blast

section \<open>Editing\<close>

text \<open>
  Claim C3. In a store whose first event with the given id is \<open>e\<close>, \<open>edit_event\<close>
  overwrites the title, the importance and the date of \<open>e\<close> exactly where the argument is
  provided and non-empty (true in Python's sense), keeps the other fields of \<open>e\<close>, keeps
  every other event and the order, and saves; with only a title given, only the title
  changes.
\<close>

theorem edit_event_frame:
  assumes "events d = pre @ e # post"
    and "py_eq (event_id e) eid"
    and "\<forall>x \<in> set pre. \<not> py_eq (event_id x) eid"
  shows "edit_event d eid t m dt =
           (says EventUpdated,
            save_events (d\<lparr>events :=
              pre @ e\<lparr>title := (if py_truthy t then t else title e),
                       importance := (if py_truthy m then m else importance e),
                       date := (if py_truthy dt then dt else date e)\<rparr> # post\<rparr>))
         \<and> (py_truthy t \<and> \<not> py_truthy m \<and> \<not> py_truthy dt \<longrightarrow>
              events (snd (edit_event d eid t m dt)) = pre @ e\<lparr>title := t\<rparr> # post)"
  using assms by (simp add: edit_event_def edit_fields_def get_event_by_id_first save_events_def)

theorem edit_event_frame_witness:
  "events (snd (edit_event store_135 (PInt 3) (PStr ''X'') PNone (PStr []))) =
     [Event 1 ''Meeting'' ''High'' ''2024-06-01'' False,
      Event 3 ''X'' ''Medium'' ''2024-06-03'' True,
      Event 5 ''Report'' ''Low'' ''2024-06-02'' False]"
  using edit_event_frame [of store_135 "[Event 1 ''Meeting'' ''High'' ''2024-06-01'' False]"
      "Event 3 ''Dentist'' ''Medium'' ''2024-06-03'' True"
      "[Event 5 ''Report'' ''Low'' ''2024-06-02'' False]" "PInt 3" "PStr ''X''" PNone "PStr []"]
  by (simp add: store_135_def Event_def save_events_def)

section \<open>Deleting\<close>

text \<open>
  Claim C5, as stated, fails on the code in what \<open>delete_event\<close> returns: the method has
  no \<open>return\<close> statement, so the call evaluates to \<open>None\<close> on a miss and on a hit alike,
  not to false and true. It tells the outcome by the line it prints.
\<close>

theorem delete_event_returns_none:
  "fst (delete_event store_135 (PInt 9)) = \<lparr>printed = EventNotFound, returned = PNone\<rparr>
   \<and> fst (delete_event store_135 (PInt 3)) = \<lparr>printed = EventDeleted, returned = PNone\<rparr>"
  by (simp add: delete_event_def store_135_def Event_def says_def)

text \<open>
  Claim C5, amended. When no event of the store has the given id, \<open>delete_event\<close> prints
  the not-found message, returns \<open>None\<close>, and leaves the collection and the file as they
  were. When the id is present, it removes the first matching event, saves the
  collection, prints the deleted message and returns \<open>None\<close>.
\<close>

theorem delete_event_cases:
  "((\<forall>e \<in> set (events d). \<not> py_eq (event_id e) eid) \<longrightarrow>
      delete_event d eid = (\<lparr>printed = EventNotFound, returned = PNone\<rparr>, d))
   \<and> (\<forall>pre e post.
        events d = pre @ e # post \<and> py_eq (event_id e) eid \<and>
        (\<forall>x \<in> set pre. \<not> py_eq (event_id x) eid) \<longrightarrow>
        delete_event d eid =
          (\<lparr>printed = EventDeleted, returned = PNone\<rparr>,
           d\<lparr>events := pre @ post, json_file := Doc (PList (map to_dict (pre @ post)))\<rparr>))"
  by (auto simp: delete_event_def get_event_by_id_none [symmetric] get_event_by_id_first
        save_events_def says_def)

theorem delete_event_cases_witness:
  "delete_event store_135 (PInt 9) = (\<lparr>printed = EventNotFound, returned = PNone\<rparr>, store_135)
   \<and> delete_event store_135 (PInt 3) =
       (\<lparr>printed = EventDeleted, returned = PNone\<rparr>,
        save_events \<lparr>events = [Event 1 ''Meeting'' ''High'' ''2024-06-01'' False,
                               Event 5 ''Report'' ''Low'' ''2024-06-02'' False],
                     json_file = Absent\<rparr>)"
  using delete_event_cases [of store_135 "PInt 9"] delete_event_cases [of store_135 "PInt 3"]
  by (simp add: store_135_def Event_def save_events_def delete_event_def says_def)

section \<open>Marking as completed\<close>

text \<open>
  Claim C6, as stated, fails on the code in what \<open>mark_completed\<close> returns: the method has
  no \<open>return\<close> statement, so the first call and the second call both evaluate to \<open>None\<close>,
  which is not true. That the event was found is told only by the line printed.
\<close>

theorem mark_completed_returns_none:
  "fst (mark_completed store_135 (PInt 5)) = \<lparr>printed = EventCompleted, returned = PNone\<rparr>
   \<and> fst (mark_completed (snd (mark_completed store_135 (PInt 5))) (PInt 5)) =
       \<lparr>printed = EventCompleted, returned = PNone\<rparr>
   \<and> \<not> py_truthy PNone"
  by (simp add: mark_completed_def save_events_def store_135_def Event_def says_def)

text \<open>
  Claim C6, amended. In a store whose first event with the given id is \<open>e\<close>,
  \<open>mark_completed\<close> sets the completed flag of \<open>e\<close> to \<open>True\<close>, saves, prints the completed
  message (its report that the event was found) and returns \<open>None\<close>. It is idempotent:
  applying it a second time prints the same message, returns \<open>None\<close> again and leaves the
  state of the first application, in which the flag is \<open>True\<close>.
\<close>

theorem mark_completed_idempotent:
  assumes "events d = pre @ e # post"
    and "py_eq (event_id e) eid"
    and "\<forall>x \<in> set pre. \<not> py_eq (event_id x) eid"
  shows "mark_completed d eid =
           (\<lparr>printed = EventCompleted, returned = PNone\<rparr>,
            save_events (d\<lparr>events := pre @ e\<lparr>completed := PBool True\<rparr> # post\<rparr>))
         \<and> mark_completed (snd (mark_completed d eid)) eid = mark_completed d eid
         \<and> printed (fst (mark_completed (snd (mark_completed d eid)) eid)) = EventCompleted
         \<and> returned (fst (mark_completed (snd (mark_completed d eid)) eid)) = PNone"
  using assms by (simp add: mark_completed_def get_event_by_id_first save_events_def says_def)

theorem mark_completed_idempotent_witness:
  "mark_completed store_135 (PInt 5) =
     (\<lparr>printed = EventCompleted, returned = PNone\<rparr>,
      save_events \<lparr>events = [Event 1 ''Meeting'' ''High'' ''2024-06-01'' False,
                             Event 3 ''Dentist'' ''Medium'' ''2024-06-03'' True,
                             Event 5 ''Report'' ''Low'' ''2024-06-02'' True],
                   json_file = Absent\<rparr>)
   \<and> mark_completed (snd (mark_completed store_135 (PInt 5))) (PInt 5) =
       mark_completed store_135 (PInt 5)"
  using mark_completed_idempotent [of store_135
      "[Event 1 ''Meeting'' ''High'' ''2024-06-01'' False,
        Event 3 ''Dentist'' ''Medium'' ''2024-06-03'' True]"
      "Event 5 ''Report'' ''Low'' ''2024-06-02'' False" "[]" "PInt 5"]
  by (simp add: store_135_def Event_def save_events_def mark_completed_def says_def)

text \<open>
  Claim C10. In a store whose first event with the given id is \<open>e\<close>, the collection after
  \<open>mark_completed\<close> is the old one with \<open>e\<close> replaced, in its place, by \<open>e\<close> with the
  completed flag set: the id, title, importance and date of that event, every other
  event, the order and the length are unchanged.
\<close>

theorem mark_completed_frame:
  assumes "events d = pre @ e # post"
    and "py_eq (event_id e) eid"
    and "\<forall>x \<in> set pre. \<not> py_eq (event_id x) eid"
  shows "\<exists>e'. events (snd (mark_completed d eid)) = pre @ e' # post
           \<and> e' = e\<lparr>completed := PBool True\<rparr>
           \<and> event_id e' = event_id e \<and> title e' = title e
           \<and> importance e' = importance e \<and> date e' = date e
           \<and> length (events (snd (mark_completed d eid))) = length (events d)"
  using assms by (simp add: mark_completed_def get_event_by_id_first save_events_def)

theorem mark_completed_frame_witness:
  "events (snd (mark_completed store_135 (PInt 1))) =
     [Event 1 ''Meeting'' ''High'' ''2024-06-01'' True,
      Event 3 ''Dentist'' ''Medium'' ''2024-06-03'' True,
      Event 5 ''Report'' ''Low'' ''2024-06-02'' False]"
  using mark_completed_frame [of store_135 "[]"
      "Event 1 ''Meeting'' ''High'' ''2024-06-01'' False"
      "[Event 3 ''Dentist'' ''Medium'' ''2024-06-03'' True,
        Event 5 ''Report'' ''Low'' ''2024-06-02'' False]" "PInt 1"]
  by (simp add: store_135_def Event_def save_events_def mark_completed_def)

section \<open>Adding\<close>

lemma py_max_loop_ints:
  "py_max_loop (PInt m) (map PInt ns) = Inr (PInt (Max (set (m # ns))))"
proof (induction ns arbitrary: m)
  case Nil
  then show ?case by simp
next
  case (Cons n ns)
  have "Max (insert (max m n) (set ns)) = Max (insert m (insert n (set ns)))"
    by (cases "set ns = {}") (simp_all add: max.assoc)
  with Cons [of "max m n"] show ?case
    by (auto simp: py_gt_def max_def)
qed

lemma generate_id_ints:
  "map event_id evs = map PInt ns \<Longrightarrow> generate_id evs = Inr (PInt (spec_next_id ns))"
proof (cases ns)
  case Nil
  assume "map event_id evs = map PInt ns"
  with Nil show ?thesis by (simp add: generate_id_def spec_next_id_def)
next
  case (Cons n ns')
  assume "map event_id evs = map PInt ns"
  with Cons have "evs \<noteq> []" and "py_max (map event_id evs) = Inr (PInt (Max (set ns)))"
    using py_max_loop_ints [of n ns'] by auto
  with Cons show ?thesis by (simp add: generate_id_def spec_next_id_def)
qed

lemma next_id_fresh:
  "map event_id evs = map PInt ns \<Longrightarrow> x \<in> set evs \<Longrightarrow>
   \<not> py_eq (event_id x) (PInt (spec_next_id ns))"
proof -
  assume ids: "map event_id evs = map PInt ns" and x: "x \<in> set evs"
  then have "event_id x \<in> set (map PInt ns)" by (metis image_eqI set_map)
  then obtain k where k: "event_id x = PInt k" "k \<in> set ns" by auto
  then have "k \<le> Max (set ns)" and "ns \<noteq> []" by auto
  then have "k \<noteq> spec_next_id ns" by (simp add: spec_next_id_def)
  with k show ?thesis by simp
qed

text \<open>
  Claim C1, as stated, fails on the code at two places. From the store with the ids 1, 3
  and 5, deleting the event that holds the maximum id 5 and adding an event assigns the
  id 4, not 5 again: the next id is one more than the maximum that is left. And
  \<open>add_event\<close> has no \<open>return\<close> statement: the call evaluates to \<open>None\<close>, not to the created
  event.
\<close>

theorem add_after_delete_max:
  "add_event (snd (delete_event store_135 (PInt 5)))
       (PStr ''Tea'') (PStr ''Low'') (PStr ''2024-06-04'') =
     Inr (\<lparr>printed = EventAdded, returned = PNone\<rparr>,
          save_events \<lparr>events = [Event 1 ''Meeting'' ''High'' ''2024-06-01'' False,
                                 Event 3 ''Dentist'' ''Medium'' ''2024-06-03'' True,
                                 Event 4 ''Tea'' ''Low'' ''2024-06-04'' False],
                       json_file = Absent\<rparr>)"
  by (simp add: add_event_def delete_event_def generate_id_def py_gt_def save_events_def
        says_def store_135_def Event_def)

text \<open>
  Claim C1, amended. For every store whose ids are integers, \<open>add_event\<close> appends exactly
  one new event whose completed flag is false and whose id is the maximum of the
  existing ids plus one (one when the store is empty), saves the collection, prints the
  added message and returns \<open>None\<close>; the created event is the last one of the collection.
  In particular, after deleting the event that this \<open>add_event\<close> created, the collection
  is the former one and the next \<open>add_event\<close> assigns that same id again.
\<close>

theorem add_event_next_id:
  assumes "map event_id (events d) = map PInt ns"
  shows "let n = spec_next_id ns;
             d1 = d\<lparr>events := events d @
                      [\<lparr>event_id = PInt n, title = t, importance = m, date = dt,
                        completed = PBool False\<rparr>]\<rparr>;
             d2 = d\<lparr>json_file := Doc (PList (map to_dict (events d)))\<rparr>
         in add_event d t m dt = Inr (\<lparr>printed = EventAdded, returned = PNone\<rparr>, save_events d1)
            \<and> delete_event (save_events d1) (PInt n) =
                (\<lparr>printed = EventDeleted, returned = PNone\<rparr>, d2)
            \<and> add_event d2 t' m' dt' =
                Inr (\<lparr>printed = EventAdded, returned = PNone\<rparr>,
                     save_events (d\<lparr>events := events d @
                       [\<lparr>event_id = PInt n, title = t', importance = m', date = dt',
                         completed = PBool False\<rparr>]\<rparr>))"
proof -
  let ?n = "spec_next_id ns"
  let ?new = "\<lparr>event_id = PInt ?n, title = t, importance = m, date = dt,
               completed = PBool False\<rparr>"
  have gen: "generate_id (events d) = Inr (PInt ?n)"
    using assms by (rule generate_id_ints)
  have fresh: "\<forall>x \<in> set (events d). \<not> py_eq (event_id x) (PInt ?n)"
    using assms next_id_fresh by blast
  have look: "get_event_by_id (events d @ ?new # []) (PInt ?n) = Some (length (events d))"
    using fresh by (intro get_event_by_id_first) simp_all
  show ?thesis
    using gen look
    by (simp add: Let_def add_event_def delete_event_def save_events_def says_def)
qed

theorem add_event_next_id_witness:
  "map event_id (events store_135) = map PInt [1, 3, 5]
   \<and> add_event store_135 (PStr ''Tea'') (PStr ''Low'') (PStr ''2024-06-04'') =
       Inr (\<lparr>printed = EventAdded, returned = PNone\<rparr>,
            save_events (store_135\<lparr>events := events store_135 @
              [Event 6 ''Tea'' ''Low'' ''2024-06-04'' False]\<rparr>))
   \<and> events (snd (delete_event
         (save_events (store_135\<lparr>events := events store_135 @
            [Event 6 ''Tea'' ''Low'' ''2024-06-04'' False]\<rparr>)) (PInt 6))) = events store_135"
proof -
  have ids: "map event_id (events store_135) = map PInt [1, 3, 5]"
    by (simp add: store_135_def Event_def)
  have six: "spec_next_id [1, 3, 5] = 6" by (simp add: spec_next_id_def)
  from add_event_next_id [OF ids, of "PStr ''Tea''" "PStr ''Low''" "PStr ''2024-06-04''"]
  show ?thesis using ids six by (simp add: Let_def Event_def)
qed

section \<open>Sorting\<close>

lemma comparable_strs: "comparable (map PStr ss)"
  by (induction ss) (simp_all add: list_all_iff)

lemma insort_by_strs:
  "date x = PStr s \<Longrightarrow> map date ys = map PStr ss \<Longrightarrow>
   insort_by date x ys = insort_key (\<lambda>e. str_of (date e)) x ys"
proof (induction ys arbitrary: ss)
  case Nil
  then show ?case by simp
next
  case (Cons y ys)
  then obtain s' ss' where "ss = s' # ss'" "date y = PStr s'" "map date ys = map PStr ss'"
    by (cases ss) auto
  with Cons show ?case by (auto simp: not_le)
qed

lemma dates_insort_key:
  "date x = PStr s \<Longrightarrow> \<exists>ss. map date ys = map PStr ss \<Longrightarrow>
   \<exists>ss. map date (insort_key f x ys) = map PStr ss"
proof (induction ys)
  case Nil
  then show ?case by (simp add: exI [of _ "[s]"])
next
  case (Cons y ys)
  from Cons.prems(2) obtain ss where ss: "map date (y # ys) = map PStr ss" by blast
  then obtain s' ss' where y: "ss = s' # ss'" "date y = PStr s'" "map date ys = map PStr ss'"
    by (cases ss) auto
  show ?case
  proof (cases "f x \<le> f y")
    case True
    with ss Cons.prems(1) show ?thesis by (simp add: exI [of _ "s # ss"])
  next
    case False
    from Cons.IH [OF Cons.prems(1)] y obtain ts where
      "map date (insort_key f x ys) = map PStr ts" by blast
    with False y show ?thesis by (simp add: exI [of _ "s' # ts"])
  qed
qed

lemma sort_by_strs:
  "map date xs = map PStr ss \<Longrightarrow> sort_by date xs = sort_key (\<lambda>e. str_of (date e)) xs"
proof (induction xs arbitrary: ss)
  case Nil
  then show ?case by (simp add: sort_by_def)
next
  case (Cons x xs)
  then obtain s ss' where x: "ss = s # ss'" "date x = PStr s" "map date xs = map PStr ss'"
    by (cases ss) auto
  then have IH: "sort_by date xs = sort_key (\<lambda>e. str_of (date e)) xs"
    using Cons.IH by blast
  have "\<exists>ts. map date (sort_key (\<lambda>e. str_of (date e)) xs) = map PStr ts"
    using x(3)
  proof (induction xs arbitrary: ss')
    case Nil
    then show ?case by simp
  next
    case (Cons a as)
    then obtain u us where "date a = PStr u" "map date as = map PStr us"
      by (cases ss') auto
    with Cons.IH show ?case
      using dates_insort_key [of a u "sort_key (\<lambda>e. str_of (date e)) as"]
      by (simp add: sort_key_def)
  qed
  then obtain ts where "map date (sort_key (\<lambda>e. str_of (date e)) xs) = map PStr ts" by blast
  with x(2) have "insort_by date x (sort_key (\<lambda>e. str_of (date e)) xs)
      = insort_key (\<lambda>e. str_of (date e)) x (sort_key (\<lambda>e. str_of (date e)) xs)"
    by (rule insort_by_strs)
  with IH show ?case by (simp add: sort_by_def sort_key_def)
qed

lemma str_dates_filter:
  "map date xs = map PStr ss \<Longrightarrow>
   filter (\<lambda>e. date e = PStr k) xs = filter (\<lambda>e. str_of (date e) = k) xs"
proof (induction xs arbitrary: ss)
  case Nil
  then show ?case by simp
next
  case (Cons x xs)
  then obtain s ss' where "date x = PStr s" "map date xs = map PStr ss'"
    by (cases ss) auto
  with Cons.IH show ?case by auto
qed

lemma str_dates_map:
  "map date xs = map PStr ss \<Longrightarrow> map date xs = map PStr (map (\<lambda>e. str_of (date e)) xs)"
proof (induction xs arbitrary: ss)
  case Nil
  then show ?case by simp
next
  case (Cons x xs)
  then obtain s ss' where "date x = PStr s" "map date xs = map PStr ss'"
    by (cases ss) auto
  with Cons.IH show ?case by auto
qed

lemma str_dates_mset:
  "map date xs = map PStr ss \<Longrightarrow> mset ys = mset xs \<Longrightarrow> \<exists>ts. map date ys = map PStr ts"
proof -
  assume a: "map date xs = map PStr ss" and m: "mset ys = mset xs"
  have "\<forall>e \<in> set xs. \<exists>s. date e = PStr s"
  proof
    fix e assume "e \<in> set xs"
    then have "date e \<in> set (map PStr ss)" using a by (metis image_eqI set_map)
    then show "\<exists>s. date e = PStr s" by auto
  qed
  moreover have "set ys = set xs" using m by (rule mset_eq_setD)
  ultimately have "\<forall>e \<in> set ys. date e = PStr (str_of (date e))" by auto
  then have "map date ys = map PStr (map (\<lambda>e. str_of (date e)) ys)" by simp
  then show ?thesis by blast
qed

text \<open>
  Claim C4. For every store whose dates are strings, \<open>sort_events_by_date\<close> reorders the
  collection so that the dates ascend in the lexicographic order of strings, keeps the
  events (the result is a permutation), keeps the relative order of the events that
  have the same date, and saves the new order. On the events with the ids 1, 2, 3 and
  the dates 2024-05-01, 2023-01-10, 2024-05-01 the resulting order is 2, 1, 3.
\<close>

theorem sort_events_by_date_stable:
  "(map date (events d) = map PStr ss \<longrightarrow>
      (\<exists>evs ss'.
         sort_events_by_date d =
           Inr (says EventsSorted,
                d\<lparr>events := evs, json_file := Doc (PList (map to_dict evs))\<rparr>)
         \<and> map date evs = map PStr ss' \<and> sorted ss'
         \<and> mset evs = mset (events d)
         \<and> (\<forall>k. filter (\<lambda>e. date e = k) evs = filter (\<lambda>e. date e = k) (events d))))
   \<and> sort_events_by_date dated_store =
       Inr (says EventsSorted,
            save_events \<lparr>events = [Event 2 ''Dentist'' ''Medium'' ''2023-01-10'' False,
                                   Event 1 ''Meeting'' ''High'' ''2024-05-01'' False,
                                   Event 3 ''Report'' ''Low'' ''2024-05-01'' False],
                         json_file = Absent\<rparr>)"
proof (intro conjI impI)
  assume dates_str: "map date (events d) = map PStr ss"
  let ?key = "\<lambda>e. str_of (date e)"
  let ?evs = "sort_key ?key (events d)"
  have sb: "sort_by date (events d) = ?evs" using dates_str by (rule sort_by_strs)
  have cmp: "comparable (map date (events d))" using dates_str comparable_strs by simp
  have run: "sort_events_by_date d =
      Inr (says EventsSorted, d\<lparr>events := ?evs, json_file := Doc (PList (map to_dict ?evs))\<rparr>)"
    using sb cmp by (simp add: sort_events_by_date_def save_events_def)
  have ms: "mset ?evs = mset (events d)" by simp
  then obtain ts where ts: "map date ?evs = map PStr ts"
    using str_dates_mset [OF dates_str] by blast
  then have dates: "map date ?evs = map PStr (map ?key ?evs)" by (rule str_dates_map)
  have srt: "sorted (map ?key ?evs)" by (rule sorted_sort_key)
  have strs: "\<exists>s. date e = PStr s" if "e \<in> set (events d)" for e
  proof -
    from that have "date e \<in> set (map PStr ss)" using dates_str by (metis image_eqI set_map)
    then show ?thesis by auto
  qed
  have stab: "filter (\<lambda>e. date e = k) ?evs = filter (\<lambda>e. date e = k) (events d)" for k
  proof (cases "\<exists>s. k = PStr s")
    case True
    then obtain s where k: "k = PStr s" by blast
    have "filter (\<lambda>e. date e = PStr s) ?evs = filter (\<lambda>e. ?key e = s) ?evs"
      using ts by (rule str_dates_filter)
    also have "\<dots> = filter (\<lambda>e. ?key e = s) (events d)" by (rule sort_key_stable)
    also have "\<dots> = filter (\<lambda>e. date e = PStr s) (events d)"
      using dates_str by (rule str_dates_filter [symmetric])
    finally show ?thesis using k by simp
  next
    case False
    then have "\<forall>e \<in> set (events d). date e \<noteq> k" using strs by metis
    then show ?thesis by (simp add: filter_False)
  qed
  from run dates srt ms stab
  show "\<exists>evs ss'.
         sort_events_by_date d =
           Inr (says EventsSorted,
                d\<lparr>events := evs, json_file := Doc (PList (map to_dict evs))\<rparr>)
         \<and> map date evs = map PStr ss' \<and> sorted ss'
         \<and> mset evs = mset (events d)
         \<and> (\<forall>k. filter (\<lambda>e. date e = k) evs = filter (\<lambda>e. date e = k) (events d))"
    by blast
next
  show "sort_events_by_date dated_store =
       Inr (says EventsSorted,
            save_events \<lparr>events = [Event 2 ''Dentist'' ''Medium'' ''2023-01-10'' False,
                                   Event 1 ''Meeting'' ''High'' ''2024-05-01'' False,
                                   Event 3 ''Report'' ''Low'' ''2024-05-01'' False],
                         json_file = Absent\<rparr>)"
    by (simp add: sort_events_by_date_def sort_by_def dated_store_def Event_def save_events_def)
qed

theorem sort_events_by_date_stable_witness:
  "map date (events dated_store) = map PStr [''2024-05-01'', ''2023-01-10'', ''2024-05-01'']
   \<and> (\<exists>evs ss'.
         sort_events_by_date dated_store =
           Inr (says EventsSorted,
                dated_store\<lparr>events := evs, json_file := Doc (PList (map to_dict evs))\<rparr>)
         \<and> map date evs = map PStr ss' \<and> sorted ss'
         \<and> mset evs = mset (events dated_store)
         \<and> (\<forall>k. filter (\<lambda>e. date e = k) evs = filter (\<lambda>e. date e = k) (events dated_store)))
   \<and> map event_id (events (snd (projr (sort_events_by_date dated_store)))) =
       [PInt 2, PInt 1, PInt 3]"
proof -
  have dates: "map date (events dated_store) =
      map PStr [''2024-05-01'', ''2023-01-10'', ''2024-05-01'']"
    by (simp add: dated_store_def Event_def)
  have general: "\<exists>evs ss'.
         sort_events_by_date dated_store =
           Inr (says EventsSorted,
                dated_store\<lparr>events := evs, json_file := Doc (PList (map to_dict evs))\<rparr>)
         \<and> map date evs = map PStr ss' \<and> sorted ss'
         \<and> mset evs = mset (events dated_store)
         \<and> (\<forall>k. filter (\<lambda>e. date e = k) evs = filter (\<lambda>e. date e = k) (events dated_store))"
    using sort_events_by_date_stable [of dated_store
        "[''2024-05-01'', ''2023-01-10'', ''2024-05-01'']"] dates by blast
  have order: "map event_id (events (snd (projr (sort_events_by_date dated_store)))) =
       [PInt 2, PInt 1, PInt 3]"
    using sort_events_by_date_stable [of dated_store "[]"]
    by (simp add: save_events_def Event_def)
  from dates general order show ?thesis by blast
qed

section \<open>Uniqueness of ids\<close>

lemma unique_int_ids_map:
  "unique_int_ids evs = (list_all is_int (map event_id evs) \<and> distinct (map event_id evs))"
  by (simp add: unique_int_ids_def list_all_iff)

lemma unique_int_ids_cong:
  "map event_id xs = map event_id ys \<Longrightarrow> unique_int_ids xs = unique_int_ids ys"
  by (simp add: unique_int_ids_map)

lemma unique_int_ids_mset:
  assumes "mset xs = mset ys"
  shows "unique_int_ids xs = unique_int_ids ys"
proof -
  from assms have "mset (map event_id xs) = mset (map event_id ys)" by simp
  then have "distinct (map event_id xs) = distinct (map event_id ys)"
    and "set (map event_id xs) = set (map event_id ys)"
    by (rule mset_eq_imp_distinct_iff, rule mset_eq_setD)
  then show ?thesis by (simp add: unique_int_ids_map list_all_iff)
qed

lemma int_ids_list:
  "list_all is_int vs \<Longrightarrow> \<exists>ns. vs = map PInt ns"
proof (induction vs)
  case Nil
  then show ?case by simp
next
  case (Cons v vs)
  then obtain n ns where "v = PInt n" "vs = map PInt ns" by (cases v) auto
  then have "v # vs = map PInt (n # ns)" by simp
  then show ?case by (rule exI)
qed

lemma get_event_by_id_length:
  "get_event_by_id evs eid = Some i \<Longrightarrow> i < length evs"
  by (induction evs arbitrary: i) (auto split: if_splits)

lemma map_event_id_update:
  "i < length evs \<Longrightarrow> event_id e' = event_id (evs ! i) \<Longrightarrow>
   map event_id (evs[i := e']) = map event_id evs"
  by (simp add: map_update list_update_same_conv)

lemma event_id_edit_fields: "event_id (edit_fields t m dt e) = event_id e"
  by (simp add: edit_fields_def Let_def)

lemma unique_int_ids_remove:
  assumes "unique_int_ids evs"
  shows "unique_int_ids (take i evs @ drop (Suc i) evs)"
proof -
  let ?ids = "map event_id evs"
  from assms have d: "distinct ?ids" and a: "list_all is_int ?ids"
    by (simp_all add: unique_int_ids_map)
  have "set (take i ?ids) \<inter> set (drop (Suc i) ?ids) = {}"
    using d by (intro set_take_disj_set_drop_if_distinct) simp_all
  with d have "distinct (take i ?ids @ drop (Suc i) ?ids)" by simp
  moreover have "list_all is_int (take i ?ids @ drop (Suc i) ?ids)"
    unfolding list_all_iff
  proof
    fix v assume "v \<in> set (take i ?ids @ drop (Suc i) ?ids)"
    then have "v \<in> set ?ids"
      by (metis Un_iff set_append in_set_takeD in_set_dropD)
    with a show "is_int v" unfolding list_all_iff by blast
  qed
  ultimately show ?thesis by (simp add: unique_int_ids_map take_map drop_map)
qed

lemma mset_insort_by: "mset (insort_by key x ys) = add_mset x (mset ys)"
  by (induction ys) simp_all

lemma mset_sort_by: "mset (sort_by key xs) = mset xs"
  by (induction xs) (simp_all add: sort_by_def mset_insort_by)

lemma unique_int_ids_append_next:
  assumes "unique_int_ids evs" and ids: "map event_id evs = map PInt ns"
    and "event_id e = PInt (spec_next_id ns)"
  shows "unique_int_ids (evs @ [e])"
proof -
  have "PInt (spec_next_id ns) \<notin> set (map PInt ns)"
  proof
    assume "PInt (spec_next_id ns) \<in> set (map PInt ns)"
    then have mem: "spec_next_id ns \<in> set ns" by auto
    then have "spec_next_id ns \<le> Max (set ns)" and "ns \<noteq> []" by auto
    then show False by (simp add: spec_next_id_def)
  qed
  with assms show ?thesis by (simp add: unique_int_ids_map)
qed

text \<open>
  Claim C8. Starting from any store whose ids are integers and pairwise distinct, each of
  \<open>add_event\<close>, \<open>edit_event\<close>, \<open>delete_event\<close>, \<open>mark_completed\<close> and
  \<open>sort_events_by_date\<close> yields a store whose ids are integers and pairwise distinct.
  (\<open>add_event\<close> always yields a store from such a start; \<open>sort_events_by_date\<close> yields one
  unless the dates do not compare.)
\<close>

theorem operations_keep_ids_unique:
  assumes "unique_int_ids (events d)"
  shows "(\<exists>d'. add_event d t m dt = Inr (says EventAdded, d') \<and> unique_int_ids (events d'))
       \<and> unique_int_ids (events (snd (edit_event d eid t m dt)))
       \<and> unique_int_ids (events (snd (delete_event d eid)))
       \<and> unique_int_ids (events (snd (mark_completed d eid)))
       \<and> (\<forall>r d'. sort_events_by_date d = Inr (r, d') \<longrightarrow> unique_int_ids (events d'))"
proof (intro conjI allI impI)
  from assms obtain ns where ns: "map event_id (events d) = map PInt ns"
    using int_ids_list unfolding unique_int_ids_map by blast
  let ?e = "\<lparr>event_id = PInt (spec_next_id ns), title = t, importance = m, date = dt,
             completed = PBool False\<rparr>"
  have "unique_int_ids (events d @ [?e])"
    using assms ns by (rule unique_int_ids_append_next) simp
  moreover have "add_event d t m dt =
      Inr (says EventAdded, save_events (d\<lparr>events := events d @ [?e]\<rparr>))"
    using generate_id_ints [OF ns] by (simp add: add_event_def)
  ultimately show "\<exists>d'. add_event d t m dt = Inr (says EventAdded, d') \<and>
      unique_int_ids (events d')"
    by (simp add: save_events_def)
next
  show "unique_int_ids (events (snd (edit_event d eid t m dt)))"
  proof (cases "get_event_by_id (events d) eid")
    case None
    with assms show ?thesis by (simp add: edit_event_def)
  next
    case (Some i)
    then have "i < length (events d)" by (rule get_event_by_id_length)
    then have "map event_id ((events d)[i := edit_fields t m dt (events d ! i)]) =
        map event_id (events d)"
      by (rule map_event_id_update) (rule event_id_edit_fields)
    then have "unique_int_ids ((events d)[i := edit_fields t m dt (events d ! i)])"
      using assms unique_int_ids_cong by blast
    with Some show ?thesis by (simp add: edit_event_def save_events_def)
  qed
next
  show "unique_int_ids (events (snd (delete_event d eid)))"
  proof (cases "get_event_by_id (events d) eid")
    case None
    with assms show ?thesis by (simp add: delete_event_def)
  next
    case (Some i)
    with unique_int_ids_remove [OF assms, of i] show ?thesis
      by (simp add: delete_event_def save_events_def)
  qed
next
  show "unique_int_ids (events (snd (mark_completed d eid)))"
  proof (cases "get_event_by_id (events d) eid")
    case None
    with assms show ?thesis by (simp add: mark_completed_def)
  next
    case (Some i)
    then have "i < length (events d)" by (rule get_event_by_id_length)
    then have "map event_id ((events d)[i := (events d ! i)\<lparr>completed := PBool True\<rparr>]) =
        map event_id (events d)"
      by (rule map_event_id_update) simp
    then have "unique_int_ids ((events d)[i := (events d ! i)\<lparr>completed := PBool True\<rparr>])"
      using assms unique_int_ids_cong by blast
    with Some show ?thesis by (simp add: mark_completed_def save_events_def)
  qed
next
  fix r d'
  assume "sort_events_by_date d = Inr (r, d')"
  then have "events d' = sort_by date (events d)"
    by (auto simp: sort_events_by_date_def save_events_def split: if_splits)
  then have "mset (events d') = mset (events d)" by (simp add: mset_sort_by)
  then show "unique_int_ids (events d')" using assms unique_int_ids_mset by blast
qed

theorem operations_keep_ids_unique_witness:
  "unique_int_ids (events store_135)
   \<and> map event_id (events (snd (projr
        (add_event store_135 (PStr ''Tea'') (PStr ''Low'') (PStr ''2024-06-04''))))) =
       [PInt 1, PInt 3, PInt 5, PInt 6]
   \<and> unique_int_ids (events (snd (edit_event store_135 (PInt 3) (PStr ''X'') PNone PNone)))
   \<and> map event_id (events (snd (delete_event store_135 (PInt 3)))) = [PInt 1, PInt 5]
   \<and> unique_int_ids (events (snd (delete_event store_135 (PInt 3))))
   \<and> unique_int_ids (events (snd (mark_completed store_135 (PInt 5))))
   \<and> sort_events_by_date store_135 =
       Inr (says EventsSorted,
            save_events (store_135\<lparr>events :=
              [Event 1 ''Meeting'' ''High'' ''2024-06-01'' False,
               Event 5 ''Report'' ''Low'' ''2024-06-02'' False,
               Event 3 ''Dentist'' ''Medium'' ''2024-06-03'' True]\<rparr>))
   \<and> unique_int_ids [Event 1 ''Meeting'' ''High'' ''2024-06-01'' False,
                      Event 5 ''Report'' ''Low'' ''2024-06-02'' False,
                      Event 3 ''Dentist'' ''Medium'' ''2024-06-03'' True]"
proof -
  have start: "unique_int_ids (events store_135)"
    by (simp add: unique_int_ids_def store_135_def Event_def)
  have sorted_run: "sort_events_by_date store_135 =
       Inr (says EventsSorted,
            save_events (store_135\<lparr>events :=
              [Event 1 ''Meeting'' ''High'' ''2024-06-01'' False,
               Event 5 ''Report'' ''Low'' ''2024-06-02'' False,
               Event 3 ''Dentist'' ''Medium'' ''2024-06-03'' True]\<rparr>))"
    by (simp add: sort_events_by_date_def sort_by_def store_135_def Event_def save_events_def)
  have added: "map event_id (events (snd (projr
        (add_event store_135 (PStr ''Tea'') (PStr ''Low'') (PStr ''2024-06-04''))))) =
       [PInt 1, PInt 3, PInt 5, PInt 6]"
    by (simp add: add_event_def generate_id_def py_gt_def save_events_def store_135_def
          Event_def)
  have deleted: "map event_id (events (snd (delete_event store_135 (PInt 3)))) =
      [PInt 1, PInt 5]"
    by (simp add: delete_event_def save_events_def store_135_def Event_def)
  note keep = operations_keep_ids_unique [OF start, of "PStr ''X''" PNone PNone "PInt 3"]
  note keep5 = operations_keep_ids_unique [OF start, of PNone PNone PNone "PInt 5"]
  from keep have edited:
    "unique_int_ids (events (snd (edit_event store_135 (PInt 3) (PStr ''X'') PNone PNone)))"
    and removed: "unique_int_ids (events (snd (delete_event store_135 (PInt 3))))"
    and after_sort: "\<forall>r d'. sort_events_by_date store_135 = Inr (r, d') \<longrightarrow>
      unique_int_ids (events d')"
    by blast+
  from keep5 have marked:
    "unique_int_ids (events (snd (mark_completed store_135 (PInt 5))))" by blast
  from after_sort sorted_run have "unique_int_ids (events (save_events (store_135\<lparr>events :=
              [Event 1 ''Meeting'' ''High'' ''2024-06-01'' False,
               Event 5 ''Report'' ''Low'' ''2024-06-02'' False,
               Event 3 ''Dentist'' ''Medium'' ''2024-06-03'' True]\<rparr>)))"
    by blast
  then have sorted_ids: "unique_int_ids [Event 1 ''Meeting'' ''High'' ''2024-06-01'' False,
                      Event 5 ''Report'' ''Low'' ''2024-06-02'' False,
                      Event 3 ''Dentist'' ''Medium'' ''2024-06-03'' True]"
    by (simp add: save_events_def)
  from start added edited deleted removed marked sorted_run sorted_ids show ?thesis
    by blast
qed

end
